theory Spec2Isabelle
  imports Complex_Main "HOL-Library.Sublist"
begin

section \<open>The AITRIOS data receiver (main.py)\<close>

text \<open>
  A shallow embedding of \<^verbatim>\<open>src/main.py\<close>: the two save functions
  \<^verbatim>\<open>save_image_file\<close> and \<^verbatim>\<open>save_meta_file\<close>, the two PUT
  handlers \<^verbatim>\<open>update_image\<close> and \<^verbatim>\<open>update_inference_result\<close>,
  and the parts of Python's \<^verbatim>\<open>str\<close>, \<^verbatim>\<open>pathlib\<close> and
  file interface they call.

  Conventions. A Python \<^verbatim>\<open>str\<close> is a \<^typ>\<open>string\<close> holding its UTF-8 bytes;
  the delimiters the program looks for (\<^verbatim>\<open>/\<close>, \<^verbatim>\<open>.txt\<close>,
  \<^verbatim>\<open>.json\<close>) are ASCII, so splitting, suffix tests and slicing act on bytes as
  they act on code points. A \<^verbatim>\<open>bytes\<close> value is a \<^typ>\<open>string\<close> as well.
\<close>

subsection \<open>Python strings\<close>

type_synonym bytes = string

text \<open>\<^verbatim>\<open>s.endswith(suf)\<close>.\<close>

definition endswith :: "string \<Rightarrow> string \<Rightarrow> bool" where
  "endswith s suf = (length suf \<le> length s \<and> drop (length s - length suf) s = suf)"

text \<open>\<^verbatim>\<open>s[:-n]\<close> for a positive \<open>n\<close>: everything but the last \<open>n\<close> characters,
  the empty string when \<open>s\<close> is shorter.\<close>

definition slice_to_neg :: "nat \<Rightarrow> string \<Rightarrow> string" where
  "slice_to_neg n s = take (length s - n) s"

text \<open>\<^verbatim>\<open>s.split(c)\<close> for a one-character separator: never the empty list, and
  one more piece than there are separators in \<open>s\<close>.\<close>

fun split :: "char \<Rightarrow> string \<Rightarrow> string list" where
  "split c [] = [[]]"
| "split c (x # xs) =
     (if x = c then [] # split c xs
      else (case split c xs of [] \<Rightarrow> [[x]] | w # ws \<Rightarrow> (x # w) # ws))"

subsection \<open>The metadata file name (save\_meta\_file, lines 120 to 123)\<close>

text \<open>
  \<^verbatim>\<open>
  if filename.endswith('.txt'):
      filename = filename[:-4] + '.json'
  elif not filename.endswith('.json'):
      filename = filename + '.json'
  \<close>
\<close>

definition meta_filename :: "string \<Rightarrow> string" where
  "meta_filename filename =
     (if endswith filename ''.txt'' then slice_to_neg 4 filename @ ''.json''
      else if \<not> endswith filename ''.json'' then filename @ ''.json''
      else filename)"

subsection \<open>Exceptions\<close>

text \<open>
  The exceptions the modelled calls can raise. A value that may raise is an
  \<open>exn + 'a\<close>, with \<open>Inl\<close> the raised exception. \<open>OtherError\<close> stands for an exception
  of a collaborator that is not in this file (the request object, the decoder).
\<close>

datatype exn =
    FileNotFoundError | FileExistsError | NotADirectoryError | IsADirectoryError
  | ValueError | JSONDecodeError | AttributeError | KeyError | TypeError | IndexError
  | OtherError string

text \<open>The subclasses of \<^verbatim>\<open>OSError\<close> among them.\<close>

fun is_OSError :: "exn \<Rightarrow> bool" where
  "is_OSError FileNotFoundError = True"
| "is_OSError FileExistsError = True"
| "is_OSError NotADirectoryError = True"
| "is_OSError IsADirectoryError = True"
| "is_OSError _ = False"

subsection \<open>pathlib\<close>

text \<open>
  A relative \<^verbatim>\<open>PurePosixPath\<close> is the list of its parts. \<^verbatim>\<open>Path("./image")\<close>
  has the single part \<open>image\<close>: pathlib drops \<open>.\<close> and empty components when it parses.
\<close>

type_synonym path = "string list"

definition IMAGE_DIR :: path where
  "IMAGE_DIR = [''image'']"

definition META_DIR :: path where
  "META_DIR = [''meta'']"

definition LOG_DIR :: path where
  "LOG_DIR = [''logs'']"

text \<open>
  \<^verbatim>\<open>p / s\<close> for a string \<open>s\<close> without a slash (every piece of
  \<^verbatim>\<open>path.split('/')\<close> is one): an empty \<open>s\<close> and \<open>.\<close> add nothing, anything
  else, \<open>..\<close> included, becomes a new last part.
\<close>

definition truediv :: "path \<Rightarrow> string \<Rightarrow> path" where
  "truediv p s = (if s = [] \<or> s = ''.'' then p else p @ [s])"

text \<open>\<^verbatim>\<open>sep.join(parts)\<close> and \<^verbatim>\<open>str(p)\<close>.\<close>

fun join :: "string \<Rightarrow> string list \<Rightarrow> string" where
  "join sep [] = []"
| "join sep [x] = x"
| "join sep (x # y # ys) = x @ sep @ join sep (y # ys)"

definition path_str :: "path \<Rightarrow> string" where
  "path_str p = (if p = [] then ''.'' else join ''/'' p)"

subsection \<open>The file system\<close>

text \<open>
  An idealised POSIX file system: a partial map from absolute locations (the names
  from the root down, without \<open>.\<close> and \<open>..\<close>) to nodes. There are no symbolic links,
  permissions, quotas or limits on name lengths, so the failures of the model are the
  structural ones: a missing or non-directory component, an existing target, a directory
  where a file is opened, and a NUL character in a name (which Python refuses before the
  system call).
\<close>

datatype node = Dir | File bytes

type_synonym fs = "string list \<rightharpoonup> node"

text \<open>One component of a path, followed from the location \<open>cur\<close>.\<close>

definition step :: "string list \<Rightarrow> string \<Rightarrow> string list" where
  "step cur p = (if p = ''..'' then butlast cur else if p = ''.'' then cur else cur @ [p])"

text \<open>
  Path resolution from \<open>cur\<close>: every component is looked up in a location that must be an
  existing directory; the location of the last component is returned whether or not
  something exists there.
\<close>

fun walk :: "fs \<Rightarrow> string list \<Rightarrow> string list \<Rightarrow> exn + string list" where
  "walk f cur [] = Inr cur"
| "walk f cur (p # ps) =
     (case f cur of
        None \<Rightarrow> Inl FileNotFoundError
      | Some (File _) \<Rightarrow> Inl NotADirectoryError
      | Some Dir \<Rightarrow> walk f (step cur p) ps)"

definition has_nul :: "path \<Rightarrow> bool" where
  "has_nul p = (CHR 0x00 \<in> set (concat p))"

text \<open>The path without parts is \<open>.\<close> for the operating system.\<close>

definition os_parts :: "path \<Rightarrow> string list" where
  "os_parts p = (if p = [] then [''.''] else p)"

definition lookup_path :: "fs \<Rightarrow> string list \<Rightarrow> path \<Rightarrow> exn + string list" where
  "lookup_path f cwd p = (if has_nul p then Inl ValueError else walk f cwd (os_parts p))"

text \<open>\<^verbatim>\<open>os.mkdir(p)\<close>.\<close>

definition os_mkdir :: "fs \<Rightarrow> string list \<Rightarrow> path \<Rightarrow> exn + fs" where
  "os_mkdir f cwd p =
     (case lookup_path f cwd p of
        Inl e \<Rightarrow> Inl e
      | Inr loc \<Rightarrow> (case f loc of None \<Rightarrow> Inr (f(loc \<mapsto> Dir)) | Some _ \<Rightarrow> Inl FileExistsError))"

text \<open>\<^verbatim>\<open>p.is_dir()\<close>: false on every error.\<close>

definition path_is_dir :: "fs \<Rightarrow> string list \<Rightarrow> path \<Rightarrow> bool" where
  "path_is_dir f cwd p =
     (case lookup_path f cwd p of Inl e \<Rightarrow> False | Inr loc \<Rightarrow> f loc = Some Dir)"

text \<open>
  \<^verbatim>\<open>p.mkdir(parents=parents, exist_ok=True)\<close>, as pathlib writes it:
  \<^verbatim>\<open>
  try:
      os.mkdir(self, mode)
  except FileNotFoundError:
      if not parents or self.parent == self:
          raise
      self.parent.mkdir(parents=True, exist_ok=True)
      self.mkdir(mode, parents=False, exist_ok=exist_ok)
  except OSError:
      if not exist_ok or not self.is_dir():
          raise
  \<close>
  The result is the file system reached and the exception raised, if any: directories
  made before a failure stay.
\<close>

function path_mkdir :: "bool \<Rightarrow> fs \<Rightarrow> string list \<Rightarrow> path \<Rightarrow> fs \<times> exn option" where
  "path_mkdir parents f cwd p =
     (case os_mkdir f cwd p of
        Inr f' \<Rightarrow> (f', None)
      | Inl e \<Rightarrow>
          if e = FileNotFoundError then
            (if \<not> parents \<or> p = [] then (f, Some e)
             else (case path_mkdir True f cwd (butlast p) of
                     (f1, Some e1) \<Rightarrow> (f1, Some e1)
                   | (f1, None) \<Rightarrow> path_mkdir False f1 cwd p))
          else if is_OSError e then
            (if path_is_dir f cwd p then (f, None) else (f, Some e))
          else (f, Some e))"
  by pat_completeness auto
termination
  by (relation "measure (\<lambda>(parents, f, cwd, p). 2 * length p + (if parents then 1 else 0))")
    (auto simp: Suc_leI)

declare path_mkdir.simps [simp del]

text \<open>
  \<^verbatim>\<open>open(p, 'wb')\<close> (or \<^verbatim>\<open>'w'\<close>), one \<^verbatim>\<open>write(content)\<close> and
  the close: the file is created or truncated, and holds \<open>content\<close> afterwards.
\<close>

definition open_write :: "fs \<Rightarrow> string list \<Rightarrow> path \<Rightarrow> bytes \<Rightarrow> exn + fs" where
  "open_write f cwd p content =
     (case lookup_path f cwd p of
        Inl e \<Rightarrow> Inl e
      | Inr loc \<Rightarrow>
          (case f loc of
             Some Dir \<Rightarrow> Inl IsADirectoryError
           | _ \<Rightarrow> Inr (f(loc \<mapsto> File content))))"

text \<open>Reading a file back, for stating what a write left behind.\<close>

definition read_file :: "fs \<Rightarrow> string list \<Rightarrow> path \<Rightarrow> bytes option" where
  "read_file f cwd p =
     (case lookup_path f cwd p of
        Inl e \<Rightarrow> None
      | Inr loc \<Rightarrow> (case f loc of Some (File c) \<Rightarrow> Some c | _ \<Rightarrow> None))"

subsection \<open>The process state\<close>

record processing_stats =
  images_received :: int
  meta_received :: int
  errors :: int
  start_time :: real

record world =
  files :: fs
  cwd :: "string list"
  stats :: processing_stats

definition count_image :: "world \<Rightarrow> world" where
  "count_image w = w\<lparr>stats := (stats w)\<lparr>images_received := images_received (stats w) + 1\<rparr>\<rparr>"

definition count_meta :: "world \<Rightarrow> world" where
  "count_meta w = w\<lparr>stats := (stats w)\<lparr>meta_received := meta_received (stats w) + 1\<rparr>\<rparr>"

definition count_error :: "world \<Rightarrow> world" where
  "count_error w = w\<lparr>stats := (stats w)\<lparr>errors := errors (stats w) + 1\<rparr>\<rparr>"

subsection \<open>save\_image\_file (lines 72 to 100)\<close>

text \<open>\<^verbatim>\<open>path_parts[:-1] if len(path_parts) > 1 else []\<close>.\<close>

definition subdirs_of :: "string list \<Rightarrow> string list" where
  "subdirs_of path_parts = (if length path_parts > 1 then butlast path_parts else [])"

text \<open>The loop \<^verbatim>\<open>for subdir in subdirs: file_dir = file_dir / subdir\<close>.\<close>

definition build_dir :: "path \<Rightarrow> string list \<Rightarrow> path" where
  "build_dir base subdirs = foldl truediv base subdirs"

text \<open>
  The state is passed through; the result is the returned string or the exception that
  the \<^verbatim>\<open>except\<close> clause counts and raises again.
\<close>

definition save_image_file :: "world \<Rightarrow> string \<Rightarrow> bytes \<Rightarrow> world \<times> (exn + string)" where
  "save_image_file w path content =
     (let path_parts = split CHR ''/'' path;
          filename = last path_parts;
          subdirs = subdirs_of path_parts;
          file_dir = build_dir IMAGE_DIR subdirs
      in case path_mkdir True (files w) (cwd w) file_dir of
           (f1, Some e) \<Rightarrow> (count_error (w\<lparr>files := f1\<rparr>), Inl e)
         | (f1, None) \<Rightarrow>
             (let file_path = truediv file_dir filename
              in case open_write f1 (cwd w) file_path content of
                   Inl e \<Rightarrow> (count_error (w\<lparr>files := f1\<rparr>), Inl e)
                 | Inr f2 \<Rightarrow> (count_image (w\<lparr>files := f2\<rparr>), Inr (path_str file_path))))"

text \<open>The path that \<^verbatim>\<open>save_image_file\<close> computes for a request path.\<close>

definition image_file_path :: "string \<Rightarrow> path" where
  "image_file_path path =
     (let path_parts = split CHR ''/'' path
      in truediv (build_dir IMAGE_DIR (subdirs_of path_parts)) (last path_parts))"

subsection \<open>JSON values and the Python operations on them\<close>

text \<open>
  What \<^verbatim>\<open>json.loads\<close> returns. An object is a \<^verbatim>\<open>dict\<close>: its keys in
  insertion order, each once. Floats are reals here; the IEEE special values are not
  represented.
\<close>

datatype json =
    JNull | JBool bool | JInt int | JFloat real | JStr string
  | JArr "json list" | JObj "(string \<times> json) list"

text \<open>\<^verbatim>\<open>d.get(k, default)\<close> and \<^verbatim>\<open>d[k] = v\<close> on a dict.\<close>

definition dict_get :: "(string \<times> json) list \<Rightarrow> string \<Rightarrow> json \<Rightarrow> json" where
  "dict_get d k dflt = (case map_of d k of None \<Rightarrow> dflt | Some v \<Rightarrow> v)"

fun dict_set :: "(string \<times> json) list \<Rightarrow> string \<Rightarrow> json \<Rightarrow> (string \<times> json) list" where
  "dict_set [] k v = [(k, v)]"
| "dict_set ((k', v') # d) k v = (if k' = k then (k, v) # d else (k', v') # dict_set d k v)"

text \<open>Truth value testing (\<^verbatim>\<open>if x:\<close>).\<close>

fun truthy :: "json \<Rightarrow> bool" where
  "truthy JNull = False"
| "truthy (JBool b) = b"
| "truthy (JInt n) = (n \<noteq> 0)"
| "truthy (JFloat x) = (x \<noteq> 0)"
| "truthy (JStr s) = (s \<noteq> [])"
| "truthy (JArr xs) = (xs \<noteq> [])"
| "truthy (JObj d) = (d \<noteq> [])"

text \<open>\<^verbatim>\<open>x.get(k, default)\<close>: only a dict has the method.\<close>

fun py_get :: "json \<Rightarrow> string \<Rightarrow> json \<Rightarrow> exn + json" where
  "py_get (JObj d) k dflt = Inr (dict_get d k dflt)"
| "py_get _ k dflt = Inl AttributeError"

text \<open>The first character of a string: its first byte and the UTF-8 continuation bytes
  that follow it.\<close>

definition first_char :: "string \<Rightarrow> string" where
  "first_char s =
     (case s of [] \<Rightarrow> []
      | c # cs \<Rightarrow> c # takeWhile (\<lambda>b. (128::nat) \<le> of_char b \<and> of_char b < (192::nat)) cs)"

text \<open>\<^verbatim>\<open>x[0]\<close>: a list and a string are indexed, a dict is looked up under the key
  \<open>0\<close> (its keys are strings, so the key is missing), nothing else is subscriptable.\<close>

fun py_index0 :: "json \<Rightarrow> exn + json" where
  "py_index0 (JArr []) = Inl IndexError"
| "py_index0 (JArr (x # xs)) = Inr x"
| "py_index0 (JStr []) = Inl IndexError"
| "py_index0 (JStr (c # cs)) = Inr (JStr (first_char (c # cs)))"
| "py_index0 (JObj d) = Inl KeyError"
| "py_index0 _ = Inl TypeError"

text \<open>\<^verbatim>\<open>x[k] = v\<close>.\<close>

fun py_setitem :: "json \<Rightarrow> string \<Rightarrow> json \<Rightarrow> exn + json" where
  "py_setitem (JObj d) k v = Inr (JObj (dict_set d k v))"
| "py_setitem _ k v = Inl TypeError"

text \<open>
  The functions of other modules that the metadata path calls, taken as parameters:
  \<^verbatim>\<open>json.loads\<close>, \<^verbatim>\<open>json.dumps(_, ensure_ascii=False, indent=None)\<close>
  and \<^verbatim>\<open>DeserializeUtil().get_deserialize_data\<close> of the module
  \<^verbatim>\<open>Desilialize\<close>, which is not among the sources. Each may raise.
\<close>

record lib =
  json_loads :: "bytes \<Rightarrow> exn + json"
  json_dumps :: "json \<Rightarrow> exn + string"
  get_deserialize_data :: "json \<Rightarrow> exn + json"

subsection \<open>save\_meta\_file (lines 103 to 137)\<close>

definition save_meta_file :: "lib \<Rightarrow> world \<Rightarrow> string \<Rightarrow> json \<Rightarrow> world \<times> (exn + string)" where
  "save_meta_file l w path content =
     (let path_parts = split CHR ''/'' path;
          filename = last path_parts;
          subdirs = subdirs_of path_parts;
          file_dir = build_dir META_DIR subdirs
      in case path_mkdir True (files w) (cwd w) file_dir of
           (f1, Some e) \<Rightarrow> (count_error (w\<lparr>files := f1\<rparr>), Inl e)
         | (f1, None) \<Rightarrow>
             (let file_path = truediv file_dir (meta_filename filename)
              in case json_dumps l content of
                   Inl e \<Rightarrow> (count_error (w\<lparr>files := f1\<rparr>), Inl e)
                 | Inr json_str \<Rightarrow>
                     (case open_write f1 (cwd w) file_path json_str of
                        Inl e \<Rightarrow> (count_error (w\<lparr>files := f1\<rparr>), Inl e)
                      | Inr f2 \<Rightarrow> (count_meta (w\<lparr>files := f2\<rparr>), Inr (path_str file_path)))))"

text \<open>The path that \<^verbatim>\<open>save_meta_file\<close> computes for a request path.\<close>

definition meta_file_path :: "string \<Rightarrow> path" where
  "meta_file_path path =
     (let path_parts = split CHR ''/'' path
      in truediv (build_dir META_DIR (subdirs_of path_parts)) (meta_filename (last path_parts)))"

subsection \<open>The PUT handlers (lines 140 to 221)\<close>

text \<open>
  What a handler is given: the outcome of \<^verbatim>\<open>await request.body()\<close> and the two
  readings of \<^verbatim>\<open>time.time()\<close> on the path taken, in seconds. The device id the
  handlers work out goes to the log only, and the log is not part of the state.
\<close>

record request =
  body :: "exn + bytes"
  time_start :: real
  time_end :: real

text \<open>\<^verbatim>\<open>int(x)\<close> on a float: towards zero.\<close>

definition py_int :: "real \<Rightarrow> int" where
  "py_int x = (if 0 \<le> x then \<lfloor>x\<rfloor> else \<lceil>x\<rceil>)"

definition process_time_ms :: "request \<Rightarrow> int" where
  "process_time_ms r = py_int ((time_end r - time_start r) * 1000)"

text \<open>
  The two dicts a handler returns. \<open>Failure\<close> holds the exception whose text
  \<^verbatim>\<open>str(e)\<close> is the \<open>error\<close> field.
\<close>

datatype response =
    Success (status: int) (file_path: string) (time_ms: int)
  | Failure (status: int) (error: exn) (time_ms: int)

definition HTTP_200_OK :: int where
  "HTTP_200_OK = 200"

definition HTTP_500_INTERNAL_SERVER_ERROR :: int where
  "HTTP_500_INTERNAL_SERVER_ERROR = 500"

text \<open>The \<^verbatim>\<open>try\<close> block of \<^verbatim>\<open>update_image\<close>.\<close>

definition update_image_try :: "world \<Rightarrow> string \<Rightarrow> request \<Rightarrow> world \<times> (exn + response)" where
  "update_image_try w path r =
     (case body r of
        Inl e \<Rightarrow> (w, Inl e)
      | Inr content \<Rightarrow>
          (case save_image_file w path content of
             (w', Inl e) \<Rightarrow> (w', Inl e)
           | (w', Inr fp) \<Rightarrow> (w', Inr (Success HTTP_200_OK fp (process_time_ms r)))))"

text \<open>The handler: the \<^verbatim>\<open>except Exception\<close> clause turns what the block raised
  into the failure dict.\<close>

definition update_image :: "world \<Rightarrow> string \<Rightarrow> request \<Rightarrow> world \<times> (exn + response)" where
  "update_image w path r =
     (case update_image_try w path r of
        (w', Inr resp) \<Rightarrow> (w', Inr resp)
      | (w', Inl e) \<Rightarrow> (w', Inr (Failure HTTP_500_INTERNAL_SERVER_ERROR e (process_time_ms r))))"

text \<open>Lines 194 to 200: the record that goes to \<^verbatim>\<open>save_meta_file\<close>.\<close>

definition enrich :: "lib \<Rightarrow> json \<Rightarrow> exn + json" where
  "enrich l contentj =
     (case py_get contentj ''Inferences'' (JArr []) of
        Inl e \<Rightarrow> Inl e
      | Inr inferences \<Rightarrow>
          if truthy inferences then
            (case py_index0 inferences of
               Inl e \<Rightarrow> Inl e
             | Inr inference \<Rightarrow>
                 (case py_get inference ''O'' (JStr []) of
                    Inl e \<Rightarrow> Inl e
                  | Inr inferenceresult \<Rightarrow>
                      (case get_deserialize_data l inferenceresult of
                         Inl e \<Rightarrow> Inl e
                       | Inr deserialize_data \<Rightarrow>
                           py_setitem contentj ''DeserializedData'' deserialize_data)))
          else Inr contentj)"

text \<open>The \<^verbatim>\<open>try\<close> block of \<^verbatim>\<open>update_inference_result\<close>.\<close>

definition update_inference_result_try ::
  "lib \<Rightarrow> world \<Rightarrow> string \<Rightarrow> request \<Rightarrow> world \<times> (exn + response)" where
  "update_inference_result_try l w path r =
     (case body r of
        Inl e \<Rightarrow> (w, Inl e)
      | Inr content \<Rightarrow>
          (case json_loads l content of
             Inl e \<Rightarrow> (w, Inl e)
           | Inr contentj \<Rightarrow>
               (case py_get contentj ''DeviceID'' (JStr ''unknown'') of
                  Inl e \<Rightarrow> (w, Inl e)
                | Inr device_id \<Rightarrow>
                    (case enrich l contentj of
                       Inl e \<Rightarrow> (w, Inl e)
                     | Inr contentj' \<Rightarrow>
                         (case save_meta_file l w path contentj' of
                            (w', Inl e) \<Rightarrow> (w', Inl e)
                          | (w', Inr fp) \<Rightarrow>
                              (w', Inr (Success HTTP_200_OK fp (process_time_ms r))))))))"

definition update_inference_result ::
  "lib \<Rightarrow> world \<Rightarrow> string \<Rightarrow> request \<Rightarrow> world \<times> (exn + response)" where
  "update_inference_result l w path r =
     (case update_inference_result_try l w path r of
        (w', Inr resp) \<Rightarrow> (w', Inr resp)
      | (w', Inl e) \<Rightarrow> (w', Inr (Failure HTTP_500_INTERNAL_SERVER_ERROR e (process_time_ms r))))"

text \<open>
  The HTTP response of a route. FastAPI sends the dict that the handler returns as the
  JSON body, with the status code of the route; when an exception leaves the handler the
  answer is 500 and carries no dict of the handler's. Both routes are declared as
  \<^verbatim>\<open>@app.put("/image/{path:path}")\<close> and \<^verbatim>\<open>@app.put("/meta/{path:path}")\<close>,
  without a status code, so theirs is the default, 200; the handlers build no response
  object of their own.
\<close>

datatype http_response = HttpResponse (status_code: int) (json_body: "response option")

definition route_response :: "int \<Rightarrow> exn + response \<Rightarrow> http_response" where
  "route_response route_status res =
     (case res of Inr d \<Rightarrow> HttpResponse route_status (Some d) | Inl e \<Rightarrow> HttpResponse 500 None)"

definition put_image :: "world \<Rightarrow> string \<Rightarrow> request \<Rightarrow> world \<times> http_response" where
  "put_image w path r =
     (case update_image w path r of (w', res) \<Rightarrow> (w', route_response 200 res))"

definition put_meta :: "lib \<Rightarrow> world \<Rightarrow> string \<Rightarrow> request \<Rightarrow> world \<times> http_response" where
  "put_meta l w path r =
     (case update_inference_result l w path r of (w', res) \<Rightarrow> (w', route_response 200 res))"

subsection \<open>Notions for the statements\<close>

text \<open>
  The location a path names when every component on the way is a directory: \<open>..\<close>
  steps to the parent, as the operating system resolves it.
\<close>

definition abs_location :: "string list \<Rightarrow> path \<Rightarrow> string list" where
  "abs_location c p = foldl step c p"

text \<open>The strings that \<^verbatim>\<open>/\<close> of pathlib turns into a part.\<close>

definition kept :: "string \<Rightarrow> bool" where
  "kept s = (s \<noteq> [] \<and> s \<noteq> ''.'')"

text \<open>An ordinary file or directory name.\<close>

definition plain_name :: "string \<Rightarrow> bool" where
  "plain_name s = (s \<noteq> [] \<and> s \<noteq> ''.'' \<and> s \<noteq> ''..'' \<and> CHR 0x00 \<notin> set s)"

text \<open>The file system with a directory at every location along the path \<open>p\<close> from \<open>c\<close>.\<close>

definition with_dirs :: "fs \<Rightarrow> string list \<Rightarrow> path \<Rightarrow> fs" where
  "with_dirs f c p = (\<lambda>loc. if \<exists>q. prefix q p \<and> loc = c @ q then Some Dir else f loc)"

subsection \<open>Test fixtures\<close>

text \<open>
  A start state as \<^verbatim>\<open>ensure_directories\<close> leaves it (the working directory
  \<open>/srv\<close> with the three configured directories, all counters zero), a request, and
  stand-ins for the three library functions: a parser that knows three bodies, a
  serialiser that knows two records and a decoder that accepts one payload.
\<close>

definition fs0 :: fs where
  "fs0 = [[] \<mapsto> Dir, [''srv''] \<mapsto> Dir, [''srv'', ''image''] \<mapsto> Dir,
          [''srv'', ''meta''] \<mapsto> Dir, [''srv'', ''logs''] \<mapsto> Dir]"

definition world0 :: world where
  "world0 = \<lparr>files = fs0, cwd = [''srv''],
     stats = \<lparr>images_received = 0, meta_received = 0, errors = 0, start_time = 0\<rparr>\<rparr>"

definition put_request :: "bytes \<Rightarrow> request" where
  "put_request content = \<lparr>body = Inr content, time_start = 10, time_end = 12\<rparr>"

definition body_plain :: bytes where
  \<open>body_plain = ''{"DeviceID":"dev1"}''\<close>

definition body_good :: bytes where
  \<open>body_good = ''{"DeviceID":"dev1","Inferences":[{"O":"AQID"}]}''\<close>

definition body_bad_payload :: bytes where
  \<open>body_bad_payload = ''{"DeviceID":"dev1","Inferences":[{"O":"!"}]}''\<close>

definition body_not_json :: bytes where
  \<open>body_not_json = ''{"DeviceID":''\<close>

definition stub_loads :: "bytes \<Rightarrow> exn + json" where
  "stub_loads s =
     (if s = body_plain then Inr (JObj [(''DeviceID'', JStr ''dev1'')])
      else if s = body_good then
        Inr (JObj [(''DeviceID'', JStr ''dev1''),
                   (''Inferences'', JArr [JObj [(''O'', JStr ''AQID'')]])])
      else if s = body_bad_payload then
        Inr (JObj [(''DeviceID'', JStr ''dev1''),
                   (''Inferences'', JArr [JObj [(''O'', JStr ''!'')]])])
      else Inl JSONDecodeError)"

definition dumped_plain :: string where
  \<open>dumped_plain = ''{"DeviceID": "dev1"}''\<close>

definition stub_dumps :: "json \<Rightarrow> exn + string" where
  "stub_dumps j =
     (if j = JObj [(''DeviceID'', JStr ''dev1'')] then Inr dumped_plain
      else if j = JObj [] then Inr ''{}''
      else Inl (OtherError ''stub''))"

definition stub_decode :: "json \<Rightarrow> exn + json" where
  "stub_decode j =
     (if j = JStr ''AQID'' then Inr (JObj [(''x'', JInt 1)]) else Inl (OtherError ''decode''))"

definition stub_lib :: lib where
  "stub_lib = \<lparr>json_loads = stub_loads, json_dumps = stub_dumps, get_deserialize_data = stub_decode\<rparr>"

section \<open>Properties\<close>

subsection \<open>Python strings\<close>

lemma endswith_append [simp]: "endswith (b @ suf) suf"
  by (simp add: endswith_def)

lemma endswith_iff: "endswith s suf \<longleftrightarrow> (\<exists>b. s = b @ suf)"
proof
  assume h: "endswith s suf"
  have "s = take (length s - length suf) s @ drop (length s - length suf) s"
    by simp
  with h show "\<exists>b. s = b @ suf"
    unfolding endswith_def by metis
next
  assume "\<exists>b. s = b @ suf"
  then show "endswith s suf" by auto
qed

lemma slice_to_neg_append [simp]: "length suf = n \<Longrightarrow> slice_to_neg n (b @ suf) = b"
  by (simp add: slice_to_neg_def)

lemma json_not_txt: "\<not> endswith (b @ ''.json'') ''.txt''"
  by (simp add: endswith_def)

lemma txt_not_json: "\<not> endswith (b @ ''.txt'') ''.json''"
  by (simp add: endswith_def)

subsection \<open>The metadata file name\<close>

lemma meta_filename_txt: "meta_filename (b @ ''.txt'') = b @ ''.json''"
  by (simp add: meta_filename_def)

lemma meta_filename_json: "meta_filename (b @ ''.json'') = b @ ''.json''"
  by (simp add: meta_filename_def json_not_txt)

lemma meta_filename_other:
  "\<not> endswith f ''.txt'' \<Longrightarrow> \<not> endswith f ''.json'' \<Longrightarrow> meta_filename f = f @ ''.json''"
  by (simp add: meta_filename_def)

lemma meta_filename_endswith_json: "endswith (meta_filename f) ''.json''"
  by (simp add: meta_filename_def)

text \<open>
  C7. Extension normalisation of a metadata file name: a name ending in \<open>.txt\<close> has that
  suffix replaced by \<open>.json\<close>; otherwise a name that does not end in \<open>.json\<close> gets
  \<open>.json\<close> appended; a name that ends in \<open>.json\<close> is left as it is.
\<close>

theorem meta_filename_cases:
  "(endswith f ''.txt'' \<longrightarrow> meta_filename f = slice_to_neg 4 f @ ''.json''
       \<and> slice_to_neg 4 f @ ''.txt'' = f)
   \<and> (\<not> endswith f ''.txt'' \<and> \<not> endswith f ''.json'' \<longrightarrow> meta_filename f = f @ ''.json'')
   \<and> (endswith f ''.json'' \<longrightarrow> meta_filename f = f)"
proof (intro conjI impI)
  assume h: "endswith f ''.txt''"
  then obtain b where b: "f = b @ ''.txt''"
    unfolding endswith_iff by blast
  show "meta_filename f = slice_to_neg 4 f @ ''.json''"
    using h by (simp add: meta_filename_def)
  show "slice_to_neg 4 f @ ''.txt'' = f"
    by (simp add: b)
next
  assume "\<not> endswith f ''.txt'' \<and> \<not> endswith f ''.json''"
  then show "meta_filename f = f @ ''.json''"
    by (simp add: meta_filename_other)
next
  assume "endswith f ''.json''"
  then obtain b where "f = b @ ''.json''"
    unfolding endswith_iff by blast
  then show "meta_filename f = f"
    by (simp add: meta_filename_json)
qed

theorem meta_filename_cases_witness:
  "meta_filename ''result.txt'' = ''result.json''
   \<and> meta_filename ''result'' = ''result.json''
   \<and> meta_filename ''result.json'' = ''result.json''
   \<and> meta_filename ''.txt'' = ''.json''
   \<and> meta_filename ''a.jpg'' = ''a.jpg.json''"
  using meta_filename_cases [of "''result.txt''"] meta_filename_cases [of "''result''"]
    meta_filename_cases [of "''result.json''"] meta_filename_cases [of "''.txt''"]
    meta_filename_cases [of "''a.jpg''"]
  by (simp add: endswith_def slice_to_neg_def)

text \<open>
  C8. Extension normalisation is idempotent; a name ending in \<open>.json\<close> is its own
  normal form, and a name ending in \<open>.txt\<close> maps to the same name with \<open>.json\<close> in
  place of \<open>.txt\<close>.
\<close>

theorem meta_filename_idempotent:
  "meta_filename (meta_filename f) = meta_filename f
   \<and> meta_filename (b @ ''.json'') = b @ ''.json''
   \<and> meta_filename (b @ ''.txt'') = b @ ''.json''"
proof -
  obtain c where "meta_filename f = c @ ''.json''"
    using meta_filename_endswith_json [of f] unfolding endswith_iff by blast
  then have "meta_filename (meta_filename f) = meta_filename f"
    by (simp add: meta_filename_json)
  then show ?thesis
    by (simp add: meta_filename_json meta_filename_txt)
qed

subsection \<open>Path resolution\<close>

lemma walk_update_stable:
  "walk f cur ps = Inr r \<Longrightarrow> f l \<noteq> Some Dir \<Longrightarrow> walk (f(l \<mapsto> n)) cur ps = Inr r"
proof (induction ps arbitrary: cur)
  case Nil
  then show ?case by simp
next
  case (Cons p ps)
  from Cons.prems(1) have d: "f cur = Some Dir"
    by (auto split: option.splits node.splits)
  with Cons.prems(2) have "cur \<noteq> l" by auto
  with d Cons show ?case by simp
qed

lemma lookup_update_stable:
  "lookup_path f c p = Inr r \<Longrightarrow> f l \<noteq> Some Dir \<Longrightarrow> lookup_path (f(l \<mapsto> n)) c p = Inr r"
  by (auto simp: lookup_path_def walk_update_stable split: if_splits)

lemma open_write_read:
  assumes "open_write f c p content = Inr f'"
  shows "read_file f' c p = Some content"
proof -
  from assms obtain loc where l: "lookup_path f c p = Inr loc" and nd: "f loc \<noteq> Some Dir"
    and f': "f' = f(loc \<mapsto> File content)"
    by (auto simp: open_write_def split: sum.splits option.splits node.splits)
  from lookup_update_stable [OF l nd] have "lookup_path f' c p = Inr loc"
    by (simp add: f')
  then show ?thesis by (simp add: read_file_def f')
qed

subsection \<open>The save functions\<close>

lemma save_image_file_success:
  assumes "save_image_file w path content = (w', Inr fp)"
  shows "\<exists>f1. open_write f1 (cwd w) (image_file_path path) content = Inr (files w')"
    and "fp = path_str (image_file_path path)"
    and "cwd w' = cwd w"
    and "stats w' = (stats w)\<lparr>images_received := images_received (stats w) + 1\<rparr>"
  using assms
  by (auto simp: save_image_file_def image_file_path_def Let_def count_image_def count_error_def
      split: prod.splits option.splits sum.splits)

lemma save_meta_file_success:
  assumes "save_meta_file l w path j = (w', Inr fp)"
  shows "\<exists>f1 s. json_dumps l j = Inr s \<and> open_write f1 (cwd w) (meta_file_path path) s = Inr (files w')"
    and "fp = path_str (meta_file_path path)"
    and "cwd w' = cwd w"
    and "stats w' = (stats w)\<lparr>meta_received := meta_received (stats w) + 1\<rparr>"
  using assms
  by (auto simp: save_meta_file_def meta_file_path_def Let_def count_meta_def count_error_def
      split: prod.splits option.splits sum.splits)

subsection \<open>Evaluating the fixtures\<close>

lemmas fixture_defs = world0_def fs0_def put_request_def stub_lib_def stub_loads_def stub_dumps_def
  stub_decode_def body_plain_def body_good_def body_bad_payload_def body_not_json_def
  dumped_plain_def

lemmas handler_defs = update_inference_result_def update_inference_result_try_def enrich_def
  update_image_def update_image_try_def process_time_ms_def py_int_def dict_get_def
  HTTP_500_INTERNAL_SERVER_ERROR_def HTTP_200_OK_def

lemmas save_defs = save_image_file_def save_meta_file_def subdirs_of_def build_dir_def truediv_def
  IMAGE_DIR_def META_DIR_def path_mkdir.simps os_mkdir_def lookup_path_def has_nul_def
  os_parts_def step_def path_is_dir_def open_write_def count_error_def count_image_def
  count_meta_def path_str_def meta_filename_def endswith_def slice_to_neg_def Let_def

lemma save_image_example:
  "snd (save_image_file world0 ''dev1/2024/frame001.jpg'' ''PNG'') = Inr ''image/dev1/2024/frame001.jpg''"
  by (simp add: save_defs fixture_defs)

lemma save_meta_example:
  "snd (save_meta_file stub_lib world0 ''dev1/2024/result.txt'' (JObj [])) = Inr ''meta/dev1/2024/result.json''"
  by (simp add: save_defs fixture_defs)

lemma save_image_twice_example:
  "snd (save_image_file (fst (save_image_file world0 ''dev1/2024/frame001.jpg'' ''AAAA''))
     ''dev1/2024/frame001.jpg'' ''B'') = Inr ''image/dev1/2024/frame001.jpg''"
  by (simp add: save_defs fixture_defs)

lemma save_image_no_name_example:
  "snd (save_image_file world0 ''a/'' ''PNG'') = Inl IsADirectoryError"
  by (simp add: save_defs fixture_defs)

lemma save_image_example_a:
  "snd (save_image_file world0 ''dev1/2024/frame001.jpg'' ''AAAA'') = Inr ''image/dev1/2024/frame001.jpg''"
  by (simp add: save_defs fixture_defs)

subsection \<open>Counters\<close>

text \<open>
  C10. A successful save adds one to its own counter and leaves the other two as they
  were: \<^verbatim>\<open>save_image_file\<close> counts in \<open>images_received\<close>,
  \<^verbatim>\<open>save_meta_file\<close> in \<open>meta_received\<close>.
\<close>

theorem save_counters:
  "(save_image_file w path content = (w', Inr fp) \<longrightarrow>
      images_received (stats w') = images_received (stats w) + 1
      \<and> meta_received (stats w') = meta_received (stats w)
      \<and> errors (stats w') = errors (stats w))
   \<and> (save_meta_file l w mpath j = (w'', Inr fp') \<longrightarrow>
      meta_received (stats w'') = meta_received (stats w) + 1
      \<and> images_received (stats w'') = images_received (stats w)
      \<and> errors (stats w'') = errors (stats w))"
  by (auto dest!: save_image_file_success(4) save_meta_file_success(4))

theorem save_counters_witness:
  "stats (fst (save_image_file world0 ''dev1/2024/frame001.jpg'' ''PNG''))
     = \<lparr>images_received = 1, meta_received = 0, errors = 0, start_time = 0\<rparr>
   \<and> stats (fst (save_meta_file stub_lib world0 ''dev1/2024/result.txt'' (JObj [])))
     = \<lparr>images_received = 0, meta_received = 1, errors = 0, start_time = 0\<rparr>"
proof -
  let ?i = "save_image_file world0 ''dev1/2024/frame001.jpg'' ''PNG''"
  let ?m = "save_meta_file stub_lib world0 ''dev1/2024/result.txt'' (JObj [])"
  have i: "?i = (fst ?i, Inr ''image/dev1/2024/frame001.jpg'')"
    using save_image_example by (metis prod.collapse)
  have m: "?m = (fst ?m, Inr ''meta/dev1/2024/result.json'')"
    using save_meta_example by (metis prod.collapse)
  have s: "stats (fst ?i) = (stats world0)\<lparr>images_received := images_received (stats world0) + 1\<rparr>"
    using save_image_file_success(4) [OF i] .
  have t: "stats (fst ?m) = (stats world0)\<lparr>meta_received := meta_received (stats world0) + 1\<rparr>"
    using save_meta_file_success(4) [OF m] .
  from save_counters [of world0 "''dev1/2024/frame001.jpg''" "''PNG''" "fst ?i"
      "''image/dev1/2024/frame001.jpg''" stub_lib "''dev1/2024/result.txt''" "JObj []" "fst ?m" "''meta/dev1/2024/result.json''"] i m
  have "images_received (stats (fst ?i)) = images_received (stats world0) + 1
      \<and> meta_received (stats (fst ?m)) = meta_received (stats world0) + 1"
    by simp
  with s t show ?thesis by (simp add: world0_def)
qed

subsection \<open>Overwriting\<close>

text \<open>
  C9. Two successful image writes to the same request path, one after the other, return
  the same file path, and the file holds the bytes of the second write, not both
  payloads.
\<close>

theorem image_overwrite:
  assumes "save_image_file w path a = (w1, Inr p1)"
    and "save_image_file w1 path b = (w2, Inr p2)"
  shows "p2 = p1 \<and> read_file (files w1) (cwd w1) (image_file_path path) = Some a
    \<and> read_file (files w2) (cwd w2) (image_file_path path) = Some b"
proof -
  from save_image_file_success [OF assms(1)] obtain f1 where
    1: "open_write f1 (cwd w) (image_file_path path) a = Inr (files w1)"
    and p1: "p1 = path_str (image_file_path path)" and c1: "cwd w1 = cwd w"
    by blast
  from save_image_file_success [OF assms(2)] obtain f2 where
    2: "open_write f2 (cwd w1) (image_file_path path) b = Inr (files w2)"
    and p2: "p2 = path_str (image_file_path path)" and c2: "cwd w2 = cwd w1"
    by blast
  show ?thesis
    using open_write_read [OF 1] open_write_read [OF 2] p1 p2 c1 c2 by simp
qed

theorem image_overwrite_witness:
  "read_file
     (files (fst (save_image_file (fst (save_image_file world0 ''dev1/2024/frame001.jpg'' ''AAAA''))
        ''dev1/2024/frame001.jpg'' ''B'')))
     [''srv''] [''image'', ''dev1'', ''2024'', ''frame001.jpg''] = Some ''B''"
proof -
  let ?p = "''dev1/2024/frame001.jpg''"
  let ?w1 = "fst (save_image_file world0 ?p ''AAAA'')"
  let ?w2 = "fst (save_image_file ?w1 ?p ''B'')"
  have 1: "save_image_file world0 ?p ''AAAA'' = (?w1, Inr ''image/dev1/2024/frame001.jpg'')"
    using save_image_example_a by (metis prod.collapse)
  have 2: "save_image_file ?w1 ?p ''B'' = (?w2, Inr ''image/dev1/2024/frame001.jpg'')"
    using save_image_twice_example by (metis prod.collapse)
  have c: "cwd ?w2 = [''srv'']"
    using save_image_file_success(3) [OF 1] save_image_file_success(3) [OF 2]
    by (simp add: world0_def)
  have p: "image_file_path ?p = [''image'', ''dev1'', ''2024'', ''frame001.jpg'']"
    by (simp add: image_file_path_def subdirs_of_def build_dir_def truediv_def IMAGE_DIR_def)
  from image_overwrite [OF 1 2] c p show ?thesis by simp
qed

subsection \<open>What a handler answers\<close>

lemma update_image_cases:
  "update_image w path r =
     (case body r of
        Inl e \<Rightarrow> (w, Inr (Failure 500 e (process_time_ms r)))
      | Inr content \<Rightarrow>
          (case save_image_file w path content of
             (w', Inl e) \<Rightarrow> (w', Inr (Failure 500 e (process_time_ms r)))
           | (w', Inr fp) \<Rightarrow> (w', Inr (Success 200 fp (process_time_ms r)))))"
  by (simp add: update_image_def update_image_try_def HTTP_200_OK_def
      HTTP_500_INTERNAL_SERVER_ERROR_def split: sum.splits prod.splits)

lemma update_inference_result_cases:
  "update_inference_result l w path r =
     (case body r of
        Inl e \<Rightarrow> (w, Inr (Failure 500 e (process_time_ms r)))
      | Inr content \<Rightarrow>
          (case json_loads l content of
             Inl e \<Rightarrow> (w, Inr (Failure 500 e (process_time_ms r)))
           | Inr contentj \<Rightarrow>
               (case py_get contentj ''DeviceID'' (JStr ''unknown'') of
                  Inl e \<Rightarrow> (w, Inr (Failure 500 e (process_time_ms r)))
                | Inr device_id \<Rightarrow>
                    (case enrich l contentj of
                       Inl e \<Rightarrow> (w, Inr (Failure 500 e (process_time_ms r)))
                     | Inr contentj' \<Rightarrow>
                         (case save_meta_file l w path contentj' of
                            (w', Inl e) \<Rightarrow> (w', Inr (Failure 500 e (process_time_ms r)))
                          | (w', Inr fp) \<Rightarrow>
                              (w', Inr (Success 200 fp (process_time_ms r))))))))"
  by (simp add: update_inference_result_def update_inference_result_try_def HTTP_200_OK_def
      HTTP_500_INTERNAL_SERVER_ERROR_def split: sum.splits prod.splits)

lemma update_image_returns: "\<exists>w' resp. update_image w path r = (w', Inr resp)"
  by (auto simp: update_image_cases split: sum.splits prod.splits)

lemma update_inference_result_returns:
  "\<exists>w' resp. update_inference_result l w path r = (w', Inr resp)"
  by (auto simp: update_inference_result_cases split: sum.splits prod.splits)

text \<open>
  C5. Both handlers return for every request and never raise. The answer is the success
  dict (status 200, the file path, the elapsed time) exactly when the save went through,
  and the failure dict (status 500, the exception, the elapsed time) exactly when reading
  the body, parsing, decoding or saving raised. No exception leaves a handler, so the
  HTTP response of the route carries that dict with the transport status 200 in every
  case, also when the operation failed and the dict says 500.
\<close>

theorem handlers_always_respond:
  "update_image w path r =
     (case body r of
        Inl e \<Rightarrow> (w, Inr (Failure 500 e (process_time_ms r)))
      | Inr content \<Rightarrow>
          (case save_image_file w path content of
             (w', Inl e) \<Rightarrow> (w', Inr (Failure 500 e (process_time_ms r)))
           | (w', Inr fp) \<Rightarrow> (w', Inr (Success 200 fp (process_time_ms r)))))
   \<and> update_inference_result l w mpath r =
     (case body r of
        Inl e \<Rightarrow> (w, Inr (Failure 500 e (process_time_ms r)))
      | Inr content \<Rightarrow>
          (case json_loads l content of
             Inl e \<Rightarrow> (w, Inr (Failure 500 e (process_time_ms r)))
           | Inr contentj \<Rightarrow>
               (case py_get contentj ''DeviceID'' (JStr ''unknown'') of
                  Inl e \<Rightarrow> (w, Inr (Failure 500 e (process_time_ms r)))
                | Inr device_id \<Rightarrow>
                    (case enrich l contentj of
                       Inl e \<Rightarrow> (w, Inr (Failure 500 e (process_time_ms r)))
                     | Inr contentj' \<Rightarrow>
                         (case save_meta_file l w mpath contentj' of
                            (w', Inl e) \<Rightarrow> (w', Inr (Failure 500 e (process_time_ms r)))
                          | (w', Inr fp) \<Rightarrow>
                              (w', Inr (Success 200 fp (process_time_ms r))))))))
   \<and> (\<exists>w' d. update_image w path r = (w', Inr d)
         \<and> put_image w path r = (w', HttpResponse 200 (Some d)))
   \<and> (\<exists>w' d. update_inference_result l w mpath r = (w', Inr d)
         \<and> put_meta l w mpath r = (w', HttpResponse 200 (Some d)))"
proof -
  obtain w1 resp1 where 1: "update_image w path r = (w1, Inr resp1)"
    using update_image_returns by blast
  obtain w2 resp2 where 2: "update_inference_result l w mpath r = (w2, Inr resp2)"
    using update_inference_result_returns by blast
  have a: "\<exists>w' d. update_image w path r = (w', Inr d)
         \<and> put_image w path r = (w', HttpResponse 200 (Some d))"
    by (simp add: 1 put_image_def route_response_def)
  have b: "\<exists>w' d. update_inference_result l w mpath r = (w', Inr d)
         \<and> put_meta l w mpath r = (w', HttpResponse 200 (Some d))"
    by (simp add: 2 put_meta_def route_response_def)
  show ?thesis
    using update_image_cases [of w path r] update_inference_result_cases [of l w mpath r] a b
    by (intro conjI)
qed

theorem handlers_always_respond_witness:
  "snd (update_image world0 ''a/'' (put_request ''PNG'')) = Inr (Failure 500 IsADirectoryError 2000)
   \<and> snd (put_image world0 ''a/'' (put_request ''PNG''))
       = HttpResponse 200 (Some (Failure 500 IsADirectoryError 2000))
   \<and> snd (update_image world0 ''dev1/2024/frame001.jpg'' (put_request ''PNG''))
       = Inr (Success 200 ''image/dev1/2024/frame001.jpg'' 2000)
   \<and> snd (update_inference_result stub_lib world0 ''dev1/2024/result.txt'' (put_request body_not_json))
       = Inr (Failure 500 JSONDecodeError 2000)
   \<and> snd (put_meta stub_lib world0 ''dev1/2024/result.txt'' (put_request body_not_json))
       = HttpResponse 200 (Some (Failure 500 JSONDecodeError 2000))"
proof -
  let ?r = "put_request ''PNG''"
  let ?q = "put_request body_not_json"
  have t: "process_time_ms ?r = 2000" "process_time_ms ?q = 2000"
    by (simp_all add: process_time_ms_def put_request_def py_int_def)
  have b: "body ?r = Inr ''PNG''" "body ?q = Inr body_not_json"
    by (simp_all add: put_request_def)
  have j: "json_loads stub_lib body_not_json = Inl JSONDecodeError"
    by (simp add: fixture_defs)
  note h = handlers_always_respond [of world0 "''a/''" ?r stub_lib "''dev1/2024/result.txt''"]
  note k = handlers_always_respond [of world0 "''dev1/2024/frame001.jpg''" ?r stub_lib "''x''"]
  note m = handlers_always_respond [of world0 "''a/''" ?q stub_lib "''dev1/2024/result.txt''"]
  have 1: "snd (update_image world0 ''a/'' ?r) = Inr (Failure 500 IsADirectoryError 2000)"
    using h save_image_no_name_example
    by (simp add: b t split: prod.splits)
  have 2: "snd (update_image world0 ''dev1/2024/frame001.jpg'' ?r)
      = Inr (Success 200 ''image/dev1/2024/frame001.jpg'' 2000)"
    using k save_image_example
    by (simp add: b t split: prod.splits)
  have 3: "snd (update_inference_result stub_lib world0 ''dev1/2024/result.txt'' ?q)
      = Inr (Failure 500 JSONDecodeError 2000)"
    using m by (simp add: b t j)
  from h [THEN conjunct2, THEN conjunct2, THEN conjunct1] obtain w1 d1 where
    "update_image world0 ''a/'' ?r = (w1, Inr d1)"
    and "put_image world0 ''a/'' ?r = (w1, HttpResponse 200 (Some d1))"
    by blast
  with 1 have 4: "snd (put_image world0 ''a/'' ?r)
      = HttpResponse 200 (Some (Failure 500 IsADirectoryError 2000))"
    by simp
  from m [THEN conjunct2, THEN conjunct2, THEN conjunct2] obtain w2 d2 where
    "update_inference_result stub_lib world0 ''dev1/2024/result.txt'' ?q = (w2, Inr d2)"
    and "put_meta stub_lib world0 ''dev1/2024/result.txt'' ?q = (w2, HttpResponse 200 (Some d2))"
    by blast
  with 3 have 5: "snd (put_meta stub_lib world0 ''dev1/2024/result.txt'' ?q)
      = HttpResponse 200 (Some (Failure 500 JSONDecodeError 2000))"
    by simp
  from 1 2 3 4 5 show ?thesis by simp
qed

subsection \<open>Failures before the save\<close>

text \<open>
  The error counter is incremented in the \<^verbatim>\<open>except\<close> clauses of the two save
  functions only. A failure of the handler before it calls the save function (the body
  is not JSON, the record is not a dict, the decoder raises) is answered with the failure
  dict and leaves the whole state as it was, the counter included.
\<close>

lemma save_image_file_failure:
  "save_image_file w path content = (w', Inl e) \<Longrightarrow> errors (stats w') = errors (stats w) + 1"
  by (auto simp: save_image_file_def Let_def count_image_def count_error_def
      split: prod.splits option.splits sum.splits)

lemma save_meta_file_failure:
  "save_meta_file l w path j = (w', Inl e) \<Longrightarrow> errors (stats w') = errors (stats w) + 1"
  by (auto simp: save_meta_file_def Let_def count_meta_def count_error_def
      split: prod.splits option.splits sum.splits)

lemma json_loads_failure:
  assumes "body r = Inr content" and "json_loads l content = Inl e"
  shows "update_inference_result l w path r
    = (w, Inr (Failure HTTP_500_INTERNAL_SERVER_ERROR e (process_time_ms r)))"
  using assms by (simp add: update_inference_result_def update_inference_result_try_def)

lemma decode_failure:
  assumes "body r = Inr content" and "json_loads l content = Inr (JObj d)"
    and "map_of d ''Inferences'' = Some (JArr (JObj i # rest))"
    and "get_deserialize_data l (dict_get i ''O'' (JStr [])) = Inl e"
  shows "update_inference_result l w path r
    = (w, Inr (Failure HTTP_500_INTERNAL_SERVER_ERROR e (process_time_ms r)))"
  using assms
  by (simp add: update_inference_result_def update_inference_result_try_def enrich_def dict_get_def)

text \<open>
  C2. When the decoder raises on the \<open>O\<close> field of the first inference, no metadata file
  is written, and the claim says the error counter goes up by one. Evaluated on a record
  whose payload the decoder rejects: the handler answers 500 and the state is unchanged,
  so nothing is written and the counter stays at 0.
\<close>

theorem decode_failure_not_counted:
  "update_inference_result stub_lib world0 ''dev1/2024/result.txt'' (put_request body_bad_payload)
     = (world0, Inr (Failure 500 (OtherError ''decode'') 2000))
   \<and> errors (stats world0) = 0"
  by (simp add: handler_defs fixture_defs)

text \<open>
  C4. When the body is not valid JSON, the handler reports the failure and writes no
  file, and the claim says the error counter is incremented. Evaluated on a body that the
  parser rejects: the handler answers 500 and the state is unchanged, so nothing is
  written and the counter stays at 0.
\<close>

theorem malformed_body_not_counted:
  "update_inference_result stub_lib world0 ''dev1/2024/result.txt'' (put_request body_not_json)
     = (world0, Inr (Failure 500 JSONDecodeError 2000))
   \<and> errors (stats world0) = 0"
  by (simp add: handler_defs fixture_defs)

subsection \<open>Records without inferences\<close>

lemma save_meta_file_decoder:
  "save_meta_file (l\<lparr>get_deserialize_data := g\<rparr>) w path j = save_meta_file l w path j"
  by (simp add: save_meta_file_def)

lemma enrich_no_inferences:
  "map_of d ''Inferences'' = None \<or> map_of d ''Inferences'' = Some (JArr [])
   \<Longrightarrow> enrich l (JObj d) = Inr (JObj d)"
  by (auto simp: enrich_def dict_get_def)

lemma update_plain_example:
  "snd (update_inference_result stub_lib world0 ''dev1/2024/result.txt'' (put_request body_plain))
    = Inr (Success 200 ''meta/dev1/2024/result.json'' 2000)"
  by (simp add: handler_defs save_defs fixture_defs)

text \<open>
  C6. When the parsed record has no \<open>Inferences\<close> field or an empty list there, the
  record goes to \<^verbatim>\<open>save_meta_file\<close> as it was parsed: no field is added, the decoder
  has no influence on the outcome, and after a success the file holds the serialisation
  of the parsed record.
\<close>

theorem no_inferences_passthrough:
  assumes "body r = Inr content" and "json_loads l content = Inr (JObj d)"
    and "map_of d ''Inferences'' = None \<or> map_of d ''Inferences'' = Some (JArr [])"
  shows "enrich l (JObj d) = Inr (JObj d)
    \<and> update_inference_result (l\<lparr>get_deserialize_data := g\<rparr>) w path r
        = update_inference_result l w path r
    \<and> update_inference_result_try l w path r
        = (case save_meta_file l w path (JObj d) of
             (w', Inl e) \<Rightarrow> (w', Inl e)
           | (w', Inr fp) \<Rightarrow> (w', Inr (Success HTTP_200_OK fp (process_time_ms r))))
    \<and> (\<forall>w' s fp t. update_inference_result l w path r = (w', Inr (Success s fp t)) \<longrightarrow>
          (\<exists>json_str. json_dumps l (JObj d) = Inr json_str
             \<and> read_file (files w') (cwd w') (meta_file_path path) = Some json_str))"
proof (intro conjI allI impI)
  show e: "enrich l (JObj d) = Inr (JObj d)"
    using assms(3) by (rule enrich_no_inferences)
  have e': "enrich (l\<lparr>get_deserialize_data := g\<rparr>) (JObj d) = Inr (JObj d)"
    using assms(3) by (rule enrich_no_inferences)
  show t: "update_inference_result_try l w path r
        = (case save_meta_file l w path (JObj d) of
             (w', Inl e) \<Rightarrow> (w', Inl e)
           | (w', Inr fp) \<Rightarrow> (w', Inr (Success HTTP_200_OK fp (process_time_ms r))))"
    using assms(1,2) e by (simp add: update_inference_result_try_def)
  have "update_inference_result_try (l\<lparr>get_deserialize_data := g\<rparr>) w path r
      = update_inference_result_try l w path r"
    using assms(1,2) e e'
    by (simp add: update_inference_result_try_def save_meta_file_decoder)
  then show "update_inference_result (l\<lparr>get_deserialize_data := g\<rparr>) w path r
        = update_inference_result l w path r"
    by (simp add: update_inference_result_def)
next
  fix w' s fp t
  assume a: "update_inference_result l w path r = (w', Inr (Success s fp t))"
  have t: "update_inference_result_try l w path r
        = (case save_meta_file l w path (JObj d) of
             (w', Inl e) \<Rightarrow> (w', Inl e)
           | (w', Inr fp) \<Rightarrow> (w', Inr (Success HTTP_200_OK fp (process_time_ms r))))"
    using assms by (simp add: update_inference_result_try_def enrich_no_inferences)
  from a have "save_meta_file l w path (JObj d) = (w', Inr fp)"
    unfolding update_inference_result_def t
    by (auto split: prod.splits sum.splits)
  from save_meta_file_success [OF this] obtain f1 js where
    js: "json_dumps l (JObj d) = Inr js"
    and o: "open_write f1 (cwd w) (meta_file_path path) js = Inr (files w')"
    and c: "cwd w' = cwd w"
    by blast
  from open_write_read [OF o] c js
  show "\<exists>json_str. json_dumps l (JObj d) = Inr json_str
             \<and> read_file (files w') (cwd w') (meta_file_path path) = Some json_str"
    by simp
qed

theorem no_inferences_passthrough_witness:
  "read_file
     (files (fst (update_inference_result stub_lib world0 ''dev1/2024/result.txt''
        (put_request body_plain))))
     [''srv''] [''meta'', ''dev1'', ''2024'', ''result.json''] = Some dumped_plain
   \<and> enrich stub_lib (JObj [(''DeviceID'', JStr ''dev1'')]) = Inr (JObj [(''DeviceID'', JStr ''dev1'')])"
proof -
  let ?p = "''dev1/2024/result.txt''"
  let ?d = "[(''DeviceID'', JStr ''dev1'')]"
  let ?u = "update_inference_result stub_lib world0 ?p (put_request body_plain)"
  have b: "body (put_request body_plain) = Inr body_plain"
    by (simp add: put_request_def)
  have l: "json_loads stub_lib body_plain = Inr (JObj ?d)"
    by (simp add: stub_lib_def stub_loads_def)
  have m: "map_of ?d ''Inferences'' = None \<or> map_of ?d ''Inferences'' = Some (JArr [])"
    by simp
  have u: "?u = (fst ?u, Inr (Success 200 ''meta/dev1/2024/result.json'' 2000))"
    using update_plain_example by (metis prod.collapse)
  have c: "cwd (fst ?u) = [''srv'']"
    by (simp add: handler_defs save_defs fixture_defs)
  have p: "meta_file_path ?p = [''meta'', ''dev1'', ''2024'', ''result.json'']"
    by (simp add: meta_file_path_def subdirs_of_def build_dir_def truediv_def META_DIR_def
        meta_filename_def endswith_def slice_to_neg_def)
  have j: "json_dumps stub_lib (JObj ?d) = Inr dumped_plain"
    by (simp add: stub_lib_def stub_dumps_def)
  note n = no_inferences_passthrough [OF b l m, of stub_decode world0 ?p]
  from n have "\<forall>w' s fp t. ?u = (w', Inr (Success s fp t)) \<longrightarrow>
      (\<exists>json_str. json_dumps stub_lib (JObj ?d) = Inr json_str
         \<and> read_file (files w') (cwd w') (meta_file_path ?p) = Some json_str)"
    by blast
  with u have "\<exists>json_str. json_dumps stub_lib (JObj ?d) = Inr json_str
         \<and> read_file (files (fst ?u)) (cwd (fst ?u)) (meta_file_path ?p) = Some json_str"
    by blast
  with c p j have "read_file (files (fst ?u)) [''srv''] [''meta'', ''dev1'', ''2024'', ''result.json'']
      = Some dumped_plain"
    by auto
  moreover from n have "enrich stub_lib (JObj ?d) = Inr (JObj ?d)"
    by blast
  ultimately show ?thesis by blast
qed

subsection \<open>Where a request path leads\<close>

lemma split_nonempty [simp]: "split c s \<noteq> []"
  by (induction s) (auto split: list.splits)

lemma join_split: "join [c] (split c s) = s"
proof (induction s)
  case Nil
  then show ?case by simp
next
  case (Cons x xs)
  obtain w ws where w: "split c xs = w # ws"
    using split_nonempty [of c xs] by (cases "split c xs") auto
  with Cons show ?case
    by (cases ws) auto
qed

lemma truediv_kept: "truediv p s = p @ filter kept [s]"
  by (simp add: truediv_def kept_def)

lemma build_dir_kept: "build_dir base subdirs = base @ filter kept subdirs"
  unfolding build_dir_def
  by (induction subdirs arbitrary: base) (auto simp: truediv_def kept_def)

lemma image_file_path_kept: "image_file_path rawPath = IMAGE_DIR @ filter kept (split CHR ''/'' rawPath)"
proof -
  let ?segs = "split CHR ''/'' rawPath"
  have ne: "?segs \<noteq> []" by simp
  show ?thesis
  proof (cases "length ?segs > 1")
    case True
    have "filter kept (butlast ?segs) @ filter kept [last ?segs] = filter kept (butlast ?segs @ [last ?segs])"
      by (simp only: filter_append)
    also have "\<dots> = filter kept ?segs"
      using ne by simp
    finally show ?thesis
      using True by (simp add: image_file_path_def subdirs_of_def build_dir_kept truediv_kept)
  next
    case False
    with ne obtain x where x: "?segs = [x]"
      by (cases ?segs) auto
    then show ?thesis
      by (simp add: image_file_path_def subdirs_of_def build_dir_kept truediv_kept)
  qed
qed

lemma meta_filename_kept: "kept (meta_filename f)"
proof -
  obtain b where "meta_filename f = b @ ''.json''"
    using meta_filename_endswith_json [of f] unfolding endswith_iff by blast
  then show ?thesis by (cases b) (auto simp: kept_def)
qed

lemma meta_filename_not_dotdot: "meta_filename f \<noteq> ''..''"
proof -
  obtain b where "meta_filename f = b @ ''.json''"
    using meta_filename_endswith_json [of f] unfolding endswith_iff by blast
  then have "length (meta_filename f) \<ge> 5" by simp
  then show ?thesis by auto
qed

lemma meta_file_path_kept:
  "meta_file_path rawPath
     = META_DIR @ filter kept (subdirs_of (split CHR ''/'' rawPath))
        @ [meta_filename (last (split CHR ''/'' rawPath))]"
  using meta_filename_kept
  by (simp add: meta_file_path_def build_dir_kept truediv_kept Let_def)

lemma foldl_step_plain:
  "\<forall>s\<in>set ps. s \<noteq> ''..'' \<and> s \<noteq> ''.'' \<Longrightarrow> foldl step c ps = c @ ps"
  by (induction ps arbitrary: c) (auto simp: step_def)

lemma walk_location: "walk f cur ps = Inr loc \<Longrightarrow> loc = foldl step cur ps"
  by (induction ps arbitrary: cur) (auto split: option.splits node.splits)

lemma lookup_path_location: "lookup_path f c p = Inr loc \<Longrightarrow> loc = abs_location c p"
  by (auto simp: lookup_path_def os_parts_def abs_location_def step_def
      dest!: walk_location split: if_splits option.splits node.splits)

lemma open_write_location:
  "open_write f c p content = Inr f' \<Longrightarrow> f' (abs_location c p) = Some (File content)"
  by (auto simp: open_write_def dest!: lookup_path_location split: sum.splits option.splits node.splits)

lemma subdirs_of_subset: "set (subdirs_of xs) \<subseteq> set xs"
  by (auto simp: subdirs_of_def dest: in_set_butlastD)

lemma save_image_escape:
  "snd (save_image_file world0 ''../x'' ''PNG'') = Inr ''image/../x''"
  by (simp add: save_defs fixture_defs)

lemma save_image_escape_file:
  "files (fst (save_image_file world0 ''../x'' ''PNG'')) [''srv'', ''x''] = Some (File ''PNG'')"
  by (simp add: save_defs fixture_defs)

text \<open>
  C3. The destination of a request path lies under the configured root whenever none of
  its segments is \<open>..\<close>, for images and for metadata, and a successful save puts the
  file at that destination. (A \<open>..\<close> segment is kept as a part of the path and resolved
  by the operating system, so the destination can lie outside the root: the request
  path \<open>../x\<close> is evaluated after the theorem.)
\<close>

theorem destination_under_root:
  assumes "''..'' \<notin> set (split CHR ''/'' rawPath)"
  shows "prefix (c @ IMAGE_DIR) (abs_location c (image_file_path rawPath))
    \<and> prefix (c @ META_DIR) (abs_location c (meta_file_path rawPath))
    \<and> (\<forall>w content w' fp. save_image_file w rawPath content = (w', Inr fp) \<longrightarrow>
          files w' (abs_location (cwd w) (image_file_path rawPath)) = Some (File content))
    \<and> (\<forall>l w j w' fp. save_meta_file l w rawPath j = (w', Inr fp) \<longrightarrow>
          (\<exists>json_str. json_dumps l j = Inr json_str
             \<and> files w' (abs_location (cwd w) (meta_file_path rawPath)) = Some (File json_str)))"
proof (intro conjI allI impI)
  let ?segs = "split CHR ''/'' rawPath"
  have "\<forall>s\<in>set (IMAGE_DIR @ filter kept ?segs). s \<noteq> ''..'' \<and> s \<noteq> ''.''"
    using assms by (auto simp: kept_def IMAGE_DIR_def)
  from foldl_step_plain [OF this]
  show "prefix (c @ IMAGE_DIR) (abs_location c (image_file_path rawPath))"
    by (simp add: abs_location_def image_file_path_kept)
  have "\<forall>s\<in>set (META_DIR @ filter kept (subdirs_of ?segs) @ [meta_filename (last ?segs)]).
      s \<noteq> ''..'' \<and> s \<noteq> ''.''"
    using assms subdirs_of_subset [of ?segs] meta_filename_kept [of "last ?segs"]
      meta_filename_not_dotdot [of "last ?segs"]
    by (auto simp: kept_def META_DIR_def)
  from foldl_step_plain [OF this]
  show "prefix (c @ META_DIR) (abs_location c (meta_file_path rawPath))"
    by (simp add: abs_location_def meta_file_path_kept)
next
  fix w content w' fp
  assume "save_image_file w rawPath content = (w', Inr fp)"
  from save_image_file_success(1) [OF this] open_write_location
  show "files w' (abs_location (cwd w) (image_file_path rawPath)) = Some (File content)"
    by blast
next
  fix l w j w' fp
  assume "save_meta_file l w rawPath j = (w', Inr fp)"
  from save_meta_file_success(1) [OF this] open_write_location
  show "\<exists>json_str. json_dumps l j = Inr json_str
             \<and> files w' (abs_location (cwd w) (meta_file_path rawPath)) = Some (File json_str)"
    by blast
qed

theorem destination_under_root_witness:
  "''..'' \<notin> set (split CHR ''/'' ''dev1/2024/result.txt'')
   \<and> abs_location [''srv''] (image_file_path ''dev1/2024/result.txt'')
       = [''srv'', ''image'', ''dev1'', ''2024'', ''result.txt'']
   \<and> prefix [''srv'', ''image''] (abs_location [''srv''] (image_file_path ''dev1/2024/result.txt''))
   \<and> abs_location [''srv''] (meta_file_path ''dev1/2024/result.txt'')
       = [''srv'', ''meta'', ''dev1'', ''2024'', ''result.json'']
   \<and> prefix [''srv'', ''meta''] (abs_location [''srv''] (meta_file_path ''dev1/2024/result.txt''))"
proof -
  have h: "''..'' \<notin> set (split CHR ''/'' ''dev1/2024/result.txt'')"
    by simp
  have i: "image_file_path ''dev1/2024/result.txt'' = [''image'', ''dev1'', ''2024'', ''result.txt'']"
    by (simp add: image_file_path_def subdirs_of_def build_dir_def truediv_def IMAGE_DIR_def)
  have m: "meta_file_path ''dev1/2024/result.txt'' = [''meta'', ''dev1'', ''2024'', ''result.json'']"
    by (simp add: meta_file_path_def subdirs_of_def build_dir_def truediv_def META_DIR_def
        meta_filename_def endswith_def slice_to_neg_def)
  from destination_under_root [OF h, of "[''srv'']"]
  have "prefix ([''srv''] @ IMAGE_DIR) (abs_location [''srv''] (image_file_path ''dev1/2024/result.txt''))
      \<and> prefix ([''srv''] @ META_DIR) (abs_location [''srv''] (meta_file_path ''dev1/2024/result.txt''))"
    by blast
  then show ?thesis
    using h by (simp add: i m abs_location_def step_def IMAGE_DIR_def META_DIR_def)
qed

theorem destination_escapes_root:
  "abs_location [''srv''] (image_file_path ''../x'') = [''srv'', ''x'']
   \<and> \<not> prefix ([''srv''] @ IMAGE_DIR) (abs_location [''srv''] (image_file_path ''../x''))
   \<and> snd (save_image_file world0 ''../x'' ''PNG'') = Inr ''image/../x''
   \<and> files (fst (save_image_file world0 ''../x'' ''PNG'')) [''srv'', ''x''] = Some (File ''PNG'')
   \<and> abs_location [''srv''] (meta_file_path ''../x'') = [''srv'', ''x.json'']
   \<and> \<not> prefix ([''srv''] @ META_DIR) (abs_location [''srv''] (meta_file_path ''../x''))"
proof -
  have i: "image_file_path ''../x'' = [''image'', ''..'', ''x'']"
    by (simp add: image_file_path_def subdirs_of_def build_dir_def truediv_def IMAGE_DIR_def)
  have m: "meta_file_path ''../x'' = [''meta'', ''..'', ''x.json'']"
    by (simp add: meta_file_path_def subdirs_of_def build_dir_def truediv_def META_DIR_def
        meta_filename_def endswith_def)
  show ?thesis
    using save_image_escape save_image_escape_file
    by (simp add: i m abs_location_def step_def IMAGE_DIR_def META_DIR_def)
qed

subsection \<open>Creating the directory chain\<close>

lemma strict_prefix_snoc_iff: "strict_prefix r (q @ [x]) \<longleftrightarrow> prefix r q"
  by (auto simp: strict_prefix_def prefix_snoc)

lemma not_prefix_snoc: "\<not> prefix (q @ [x]) q"
  by (simp add: prefix_def)

lemma plain_no_nul: "list_all plain_name p \<Longrightarrow> \<not> has_nul p"
  by (auto simp: has_nul_def plain_name_def list_all_iff)

lemma walk_plain_ok:
  "list_all plain_name ps \<Longrightarrow> (\<forall>q. strict_prefix q ps \<longrightarrow> f (cur @ q) = Some Dir)
   \<Longrightarrow> walk f cur ps = Inr (cur @ ps)"
proof (induction ps arbitrary: cur)
  case Nil
  then show ?case by simp
next
  case (Cons p ps)
  from Cons.prems(2) have d: "f cur = Some Dir"
    by (metis append_Nil2 strict_prefix_simps(2))
  have "\<forall>q. strict_prefix q ps \<longrightarrow> f ((cur @ [p]) @ q) = Some Dir"
    using Cons.prems(2) by (metis append_Cons append_Nil append_assoc strict_prefix_simps(3))
  with Cons.IH [of "cur @ [p]"] Cons.prems(1) have "walk f (cur @ [p]) ps = Inr (cur @ p # ps)"
    by simp
  moreover from Cons.prems(1) have "step cur p = cur @ [p]"
    by (simp add: step_def plain_name_def)
  ultimately show ?case using d by simp
qed

lemma walk_plain_missing:
  "list_all plain_name ps \<Longrightarrow> (\<forall>q b. strict_prefix q ps \<longrightarrow> f (cur @ q) \<noteq> Some (File b))
   \<Longrightarrow> \<exists>q. strict_prefix q ps \<and> f (cur @ q) \<noteq> Some Dir
   \<Longrightarrow> walk f cur ps = Inl FileNotFoundError"
proof (induction ps arbitrary: cur)
  case Nil
  then show ?case by simp
next
  case (Cons p ps)
  from Cons.prems(2) have nf: "\<And>b. f cur \<noteq> Some (File b)"
    by (metis append_Nil2 strict_prefix_simps(2))
  show ?case
  proof (cases "f cur")
    case None
    then show ?thesis by simp
  next
    case (Some n)
    with nf have d: "f cur = Some Dir" by (cases n) auto
    from Cons.prems(3) obtain q where q: "strict_prefix q (p # ps)" "f (cur @ q) \<noteq> Some Dir"
      by blast
    with d obtain q' where q': "q = p # q'" "strict_prefix q' ps"
      by (cases q) auto
    have a: "\<forall>q b. strict_prefix q ps \<longrightarrow> f ((cur @ [p]) @ q) \<noteq> Some (File b)"
      using Cons.prems(2) by (metis append_Cons append_Nil append_assoc strict_prefix_simps(3))
    have b: "\<exists>q. strict_prefix q ps \<and> f ((cur @ [p]) @ q) \<noteq> Some Dir"
      using q q' by auto
    from Cons.IH [OF _ a b] Cons.prems(1) have "walk f (cur @ [p]) ps = Inl FileNotFoundError"
      by simp
    moreover from Cons.prems(1) have "step cur p = cur @ [p]"
      by (simp add: step_def plain_name_def)
    ultimately show ?thesis using d by simp
  qed
qed

lemma mkdir_cwd: "f c = Some Dir \<Longrightarrow> path_mkdir b f c [] = (f, None)"
  by (simp add: path_mkdir.simps os_mkdir_def lookup_path_def has_nul_def os_parts_def step_def
      path_is_dir_def)

lemma mkdir_last:
  assumes "list_all plain_name p" and "p \<noteq> []"
    and "\<forall>q. strict_prefix q p \<longrightarrow> f (c @ q) = Some Dir"
    and "\<And>content. f (c @ p) \<noteq> Some (File content)"
  shows "path_mkdir b f c p = (f(c @ p \<mapsto> Dir), None)"
proof -
  have l: "lookup_path f c p = Inr (c @ p)"
    using assms(1,2,3) by (simp add: lookup_path_def plain_no_nul os_parts_def walk_plain_ok)
  show ?thesis
  proof (cases "f (c @ p)")
    case None
    with l show ?thesis
      by (simp add: path_mkdir.simps os_mkdir_def)
  next
    case (Some n)
    with assms(4) have d: "f (c @ p) = Some Dir" by (cases n) auto
    then have "f(c @ p \<mapsto> Dir) = f" by (rule fun_upd_idem)
    with l d show ?thesis
      by (simp add: path_mkdir.simps os_mkdir_def path_is_dir_def)
  qed
qed

lemma with_dirs_snoc:
  "with_dirs f c (q @ [x]) = (with_dirs f c q)(c @ q @ [x] \<mapsto> Dir)"
  by (rule ext) (auto simp: with_dirs_def)

lemma with_dirs_prefix: "prefix q p \<Longrightarrow> with_dirs f c p (c @ q) = Some Dir"
  by (auto simp: with_dirs_def)

lemma with_dirs_other: "\<not> prefix q p \<Longrightarrow> with_dirs f c p (c @ q) = f (c @ q)"
  by (auto simp: with_dirs_def)

lemma with_dirs_idem:
  "\<forall>q. prefix q p \<longrightarrow> f (c @ q) = Some Dir \<Longrightarrow> with_dirs f c p = f"
  by (rule ext) (auto simp: with_dirs_def)

lemma mkdir_plain:
  assumes "list_all plain_name p" and "f c = Some Dir"
    and "\<forall>q content. prefix q p \<longrightarrow> f (c @ q) \<noteq> Some (File content)"
  shows "path_mkdir True f c p = (with_dirs f c p, None)"
  using assms
proof (induction p rule: rev_induct)
  case Nil
  have "with_dirs f c [] = f"
    using Nil.prems(2) by (intro with_dirs_idem) simp
  with mkdir_cwd [of f c True] Nil.prems(2) show ?case by simp
next
  case (snoc x q)
  let ?p = "q @ [x]"
  have ne: "?p \<noteq> []" by simp
  have pl: "list_all plain_name q" using snoc.prems(1) by simp
  have nf: "\<forall>r content. prefix r q \<longrightarrow> f (c @ r) \<noteq> Some (File content)"
    using snoc.prems(3) by (meson prefix_order.trans prefixI)
  have nfp: "\<And>content. f (c @ ?p) \<noteq> Some (File content)"
    using snoc.prems(3) by blast
  have ih: "path_mkdir True f c q = (with_dirs f c q, None)"
    using snoc.IH [OF pl snoc.prems(2) nf] .
  have sp: "\<And>r. strict_prefix r ?p \<longleftrightarrow> prefix r q"
    by (rule strict_prefix_snoc_iff)
  show ?case
  proof (cases "\<forall>r. prefix r q \<longrightarrow> f (c @ r) = Some Dir")
    case True
    then have a: "\<forall>r. strict_prefix r ?p \<longrightarrow> f (c @ r) = Some Dir"
      using sp by blast
    have "with_dirs f c q = f" using True by (rule with_dirs_idem)
    then have w: "with_dirs f c ?p = f(c @ ?p \<mapsto> Dir)"
      by (simp only: with_dirs_snoc)
    show ?thesis
      unfolding w by (rule mkdir_last [OF snoc.prems(1) ne a nfp])
  next
    case False
    then have m: "\<exists>r. strict_prefix r ?p \<and> f (c @ r) \<noteq> Some Dir"
      using sp by blast
    have n: "\<forall>r b. strict_prefix r ?p \<longrightarrow> f (c @ r) \<noteq> Some (File b)"
      using nf sp by blast
    have "walk f c ?p = Inl FileNotFoundError"
      using walk_plain_missing [OF snoc.prems(1) n m] .
    then have o: "os_mkdir f c ?p = Inl FileNotFoundError"
      using snoc.prems(1) by (simp add: os_mkdir_def lookup_path_def plain_no_nul os_parts_def)
    let ?f1 = "with_dirs f c q"
    have a1: "\<forall>r. strict_prefix r ?p \<longrightarrow> ?f1 (c @ r) = Some Dir"
      using sp by (simp add: with_dirs_prefix)
    have "\<not> prefix ?p q" by (simp add: prefix_def)
    then have "?f1 (c @ ?p) = f (c @ ?p)" by (rule with_dirs_other)
    with nfp have a2: "\<And>content. ?f1 (c @ ?p) \<noteq> Some (File content)" by simp
    have "path_mkdir False ?f1 c ?p = (?f1(c @ ?p \<mapsto> Dir), None)"
      by (rule mkdir_last [OF snoc.prems(1) ne a1 a2])
    then have "path_mkdir True f c ?p = (?f1(c @ ?p \<mapsto> Dir), None)"
      using o ih by (subst path_mkdir.simps) simp
    then show ?thesis by (simp only: with_dirs_snoc)
  qed
qed

lemma os_mkdir_is_dir:
  assumes "os_mkdir f c p = Inr f'"
  shows "path_is_dir f' c p"
proof -
  from assms obtain loc where l: "lookup_path f c p = Inr loc" and n: "f loc = None"
    and f': "f' = f(loc \<mapsto> Dir)"
    by (auto simp: os_mkdir_def split: sum.splits option.splits)
  from n have "f loc \<noteq> Some Dir" by simp
  from lookup_update_stable [OF l this] have "lookup_path f' c p = Inr loc"
    by (simp add: f')
  then show ?thesis by (simp add: path_is_dir_def f')
qed

lemma mkdir_single_is_dir:
  assumes "path_mkdir False f c p = (f', None)"
  shows "path_is_dir f' c p"
proof (cases "os_mkdir f c p")
  case (Inr g)
  with assms have "f' = g" by (simp add: path_mkdir.simps)
  with Inr show ?thesis by (simp add: os_mkdir_is_dir)
next
  case (Inl e)
  with assms show ?thesis
    by (auto simp: path_mkdir.simps split: if_splits)
qed

lemma mkdir_is_dir:
  assumes "path_mkdir b f c p = (f', None)"
  shows "path_is_dir f' c p"
proof (cases "os_mkdir f c p")
  case (Inr g)
  with assms have "f' = g" by (simp add: path_mkdir.simps)
  with Inr show ?thesis by (simp add: os_mkdir_is_dir)
next
  case (Inl e)
  show ?thesis
  proof (cases "e = FileNotFoundError")
    case False
    with Inl assms show ?thesis
      by (auto simp: path_mkdir.simps split: if_splits)
  next
    case True
    with Inl assms obtain f1 where "path_mkdir False f1 c p = (f', None)"
      by (subst (asm) path_mkdir.simps) (auto split: if_splits prod.splits option.splits)
    then show ?thesis by (rule mkdir_single_is_dir)
  qed
qed

lemma open_write_dir:
  "path_is_dir f c p \<Longrightarrow> open_write f c p content = Inl IsADirectoryError"
  by (auto simp: path_is_dir_def open_write_def split: sum.splits)

lemma save_image_file_no_name:
  assumes "last (split CHR ''/'' rawPath) = [] \<or> last (split CHR ''/'' rawPath) = ''.''"
  shows "\<exists>w' e. save_image_file w rawPath content = (w', Inl e)"
proof -
  let ?dir = "build_dir IMAGE_DIR (subdirs_of (split CHR ''/'' rawPath))"
  have t: "truediv ?dir (last (split CHR ''/'' rawPath)) = ?dir"
    using assms by (auto simp: truediv_def)
  obtain f1 r where m: "path_mkdir True (files w) (cwd w) ?dir = (f1, r)"
    by (cases "path_mkdir True (files w) (cwd w) ?dir") auto
  show ?thesis
  proof (cases r)
    case (Some e)
    with m show ?thesis by (simp add: save_image_file_def Let_def)
  next
    case None
    with m have "path_is_dir f1 (cwd w) ?dir" by (simp add: mkdir_is_dir)
    then have "open_write f1 (cwd w) ?dir content = Inl IsADirectoryError"
      by (rule open_write_dir)
    with m None t show ?thesis by (simp add: save_image_file_def Let_def)
  qed
qed

subsection \<open>Saving an image\<close>

lemma kept_plain: "list_all plain_name xs \<Longrightarrow> filter kept xs = xs"
  by (induction xs) (auto simp: plain_name_def kept_def)

lemma path_str_image: "path_str (IMAGE_DIR @ split CHR ''/'' rawPath) = ''image/'' @ rawPath"
proof -
  obtain s ss where s: "split CHR ''/'' rawPath = s # ss"
    using split_nonempty [of "CHR ''/''" rawPath] by (cases "split CHR ''/'' rawPath") auto
  have "join ''/'' (split CHR ''/'' rawPath) = rawPath"
    by (rule join_split)
  with s show ?thesis
    by (simp add: path_str_def IMAGE_DIR_def)
qed

lemma save_image_file_plain:
  assumes pl: "list_all plain_name (split CHR ''/'' rawPath)"
    and cw: "files w (cwd w) = Some Dir"
    and nf: "\<forall>q b. prefix q (IMAGE_DIR @ butlast (split CHR ''/'' rawPath))
               \<longrightarrow> files w (cwd w @ q) \<noteq> Some (File b)"
    and nd: "files w (cwd w @ IMAGE_DIR @ split CHR ''/'' rawPath) \<noteq> Some Dir"
  shows "save_image_file w rawPath content
    = (count_image (w\<lparr>files := (with_dirs (files w) (cwd w)
          (IMAGE_DIR @ butlast (split CHR ''/'' rawPath)))
            (cwd w @ IMAGE_DIR @ split CHR ''/'' rawPath \<mapsto> File content)\<rparr>),
       Inr (''image/'' @ rawPath))"
proof -
  let ?segs = "split CHR ''/'' rawPath"
  let ?dir = "IMAGE_DIR @ butlast ?segs"
  let ?f1 = "with_dirs (files w) (cwd w) ?dir"
  have ne: "?segs \<noteq> []" by simp
  then have bl: "butlast ?segs @ [last ?segs] = ?segs" by simp
  have pb: "list_all plain_name (butlast ?segs)"
    using pl by (auto simp: list_all_iff dest: in_set_butlastD)
  have pi: "list_all plain_name IMAGE_DIR"
    by (simp add: IMAGE_DIR_def plain_name_def)
  have pd: "list_all plain_name ?dir" using pb pi by simp
  have full: "?dir @ [last ?segs] = IMAGE_DIR @ ?segs" using bl by simp
  have pf: "list_all plain_name (?dir @ [last ?segs])"
    unfolding full using pi pl by simp
  have sd: "subdirs_of ?segs = butlast ?segs"
    by (cases ?segs rule: rev_cases) (auto simp: subdirs_of_def)
  have dir: "build_dir IMAGE_DIR (subdirs_of ?segs) = ?dir"
    by (simp add: build_dir_kept sd kept_plain [OF pb])
  have "plain_name (last ?segs)"
    using pl ne by (simp add: list_all_iff)
  then have "kept (last ?segs)"
    by (simp add: plain_name_def kept_def)
  then have fp: "truediv ?dir (last ?segs) = IMAGE_DIR @ ?segs"
    using full by (simp add: truediv_kept)
  have mk: "path_mkdir True (files w) (cwd w) ?dir = (?f1, None)"
    using pd cw nf by (rule mkdir_plain)
  have sp: "\<forall>q. strict_prefix q (?dir @ [last ?segs]) \<longrightarrow> ?f1 (cwd w @ q) = Some Dir"
    unfolding strict_prefix_snoc_iff using with_dirs_prefix by blast
  have wk: "walk ?f1 (cwd w) (?dir @ [last ?segs]) = Inr (cwd w @ ?dir @ [last ?segs])"
    using walk_plain_ok [OF pf sp] by simp
  have lk: "lookup_path ?f1 (cwd w) (IMAGE_DIR @ ?segs) = Inr (cwd w @ IMAGE_DIR @ ?segs)"
    using wk pf unfolding full
    by (simp add: lookup_path_def plain_no_nul os_parts_def IMAGE_DIR_def)
  have "\<not> prefix (IMAGE_DIR @ ?segs) ?dir"
    using not_prefix_snoc [of ?dir "last ?segs"] unfolding full .
  then have "?f1 (cwd w @ IMAGE_DIR @ ?segs) = files w (cwd w @ IMAGE_DIR @ ?segs)"
    by (rule with_dirs_other)
  with nd lk have ow: "open_write ?f1 (cwd w) (IMAGE_DIR @ ?segs) content
      = Inr (?f1(cwd w @ IMAGE_DIR @ ?segs \<mapsto> File content))"
    by (auto simp: open_write_def split: option.splits node.splits)
  show ?thesis
    by (simp add: save_image_file_def Let_def dir mk fp ow path_str_image)
qed

lemma split_no_sep: "c \<notin> set s \<Longrightarrow> split c s = [s]"
  by (induction s) auto

lemma fs0_no_file: "fs0 loc \<noteq> Some (File b)"
  by (simp add: fs0_def)




end
